theory Spec2Isabelle
  imports Complex_Main
begin

section \<open>Python values: exceptions, log records, the call result\<close>

text \<open>
  The module \<^verbatim>\<open>matchms/filtering/repair_adduct/interpret_unknown_adduct.py\<close> is a
  chain of small string functions. Each of them may log through
  \<^verbatim>\<open>logger.warning\<close> and may raise. A call is therefore modelled as the list of
  warnings it logged, in order, together with either the exception that left the
  function or the value it returned. A Python string is a list of characters here; the
  patterns of the module tell only ASCII characters apart.
\<close>

datatype error = IndexError | AssertionError | ValueError | ZeroDivisionError

text \<open>
  One constructor per \<^verbatim>\<open>logger.warning\<close> call of the module, carrying the values
  that the f-string interpolates:
  \<^item> line 43: "Expected to find brackets [] once, not the case in {adduct}"
  \<^item> line 49: "The parent mass (e.g. 2M or M) was found {len(parent_mass)} times in {adduct}"
  \<^item> line 95: "The formula {ion} in the adduct is not recognized"
  \<^item> line 108: "Charge was found {len(charge)} times in adduct {adduct}"
  \<^item> line 118: "Charge is expected of length 1 or 2 {charge} was given"
\<close>

datatype warning =
    Brackets_not_once string
  | Parent_mass_found nat string
  | Formula_not_recognized string
  | Charge_found nat string
  | Charge_length string

type_synonym 'a py = "warning list \<times> (error + 'a)"

definition return :: "'a \<Rightarrow> 'a py" where
  "return x = ([], Inr x)"

definition raise :: "error \<Rightarrow> 'a py" where
  "raise e = ([], Inl e)"

definition logger_warning :: "warning \<Rightarrow> unit py" where
  "logger_warning w = ([w], Inr ())"

text \<open>Sequencing: an exception stops the rest, the warnings logged so far are kept.\<close>

definition bind :: "'a py \<Rightarrow> ('a \<Rightarrow> 'b py) \<Rightarrow> 'b py" where
  "bind m f =
     (case m of
        (ws, Inl e) \<Rightarrow> (ws, Inl e)
      | (ws, Inr x) \<Rightarrow> (case f x of (ws', r) \<Rightarrow> (ws @ ws', r)))"

section \<open>Characters and \<^verbatim>\<open>int()\<close>\<close>

text \<open>The character classes of the patterns: \<^verbatim>\<open>[0-9]\<close>, \<^verbatim>\<open>[+-]\<close>, \<^verbatim>\<open>[0-9a-zA-Z]\<close>.\<close>

definition is_digit :: "char \<Rightarrow> bool" where
  "is_digit c = (c \<in> set ''0123456789'')"

definition is_sign :: "char \<Rightarrow> bool" where
  "is_sign c = (c = CHR ''+'' \<or> c = CHR ''-'')"

definition is_alnum :: "char \<Rightarrow> bool" where
  "is_alnum c =
     (c \<in> set ''0123456789abcdefghijklmnopqrstuvwxyzABCDEFGHIJKLMNOPQRSTUVWXYZ'')"

text \<open>The dot of a pattern compiled without DOTALL: any character but the newline.\<close>

definition is_dot :: "char \<Rightarrow> bool" where
  "is_dot c = (c \<noteq> CHR 0x0A)"

text \<open>The value of a digit: its code minus the code of \<^verbatim>\<open>0\<close>.\<close>

definition digit_value :: "char \<Rightarrow> nat" where
  "digit_value c = of_char c - of_char (CHR ''0'')"

definition decimal :: "string \<Rightarrow> nat" where
  "decimal ds = foldl (\<lambda>n c. 10 * n + digit_value c) 0 ds"

text \<open>
  \<^verbatim>\<open>int(s)\<close> on a string: an optional sign and a non-empty run of ASCII digits,
  ValueError otherwise. (Python also accepts surrounding blanks and underscores between
  digits; no string built by this module has them.)
\<close>

definition int_of_str :: "string \<Rightarrow> int py" where
  "int_of_str s =
     (case s of
        [] \<Rightarrow> raise ValueError
      | c # cs \<Rightarrow>
          if is_sign c then
            (if cs \<noteq> [] \<and> list_all is_digit cs
             then return (if c = CHR ''-'' then - int (decimal cs) else int (decimal cs))
             else raise ValueError)
          else if list_all is_digit s then return (int (decimal s))
          else raise ValueError)"

section \<open>\<^verbatim>\<open>re.findall\<close> and the four patterns\<close>

text \<open>
  A pattern is given by its matcher at one position: the flag says whether the position
  is the start of the string (where \<^verbatim>\<open>^\<close> matches), the string is the text from
  that position on, and the result is the captured group with the text left after the
  whole match. Each matcher below follows the backtracking order of Python's engine
  (alternatives left to right, quantifiers greedy).

  \<^verbatim>\<open>re.findall\<close> scans from left to right, tries the pattern at each position,
  collects the group of each match and resumes at the end of the match, so matches do not
  overlap. A pattern that matched the empty string would make the scan step one character
  forward; none of the four patterns of this module can match the empty string.
\<close>

type_synonym matcher = "bool \<Rightarrow> string \<Rightarrow> (string \<times> string) option"

function findall :: "matcher \<Rightarrow> bool \<Rightarrow> string \<Rightarrow> string list" where
  "findall m start s =
     (case m start s of
        Some (g, r) \<Rightarrow>
          if length r < length s then g # findall m False r
          else (case s of [] \<Rightarrow> [g] | _ # cs \<Rightarrow> g # findall m False cs)
      | None \<Rightarrow> (case s of [] \<Rightarrow> [] | _ # cs \<Rightarrow> findall m False cs))"
  by pat_completeness auto
termination
  by (relation "measure (\<lambda>(m, start, s). length s)") auto

text \<open>
  \<^verbatim>\<open>(.*)\]\<close>: the greedy star first takes one more character (any but a newline)
  and only when the rest cannot be matched that way gives it back and looks for the
  closing bracket here. So the group ends at the last \<^verbatim>\<open>]\<close> of the line.
\<close>

fun dot_star_close :: "string \<Rightarrow> (string \<times> string) option" where
  "dot_star_close [] = None"
| "dot_star_close (c # cs) =
     (case (if is_dot c then dot_star_close cs else None) of
        Some (g, r) \<Rightarrow> Some (c # g, r)
      | None \<Rightarrow> if c = CHR '']'' then Some ([], cs) else None)"

text \<open>Line 41: \<^verbatim>\<open>\[(.*)\]\<close>.\<close>

definition brackets_pattern :: matcher where
  "brackets_pattern start s =
     (case s of
        [] \<Rightarrow> None
      | c # cs \<Rightarrow> if c = CHR ''['' then dot_star_close cs else None)"

text \<open>
  \<^verbatim>\<open>[0-9]?M\<close>: the optional digit is tried first. Giving the digit back cannot help,
  since the character that would then have to be \<^verbatim>\<open>M\<close> is that digit.
\<close>

definition opt_digit_M :: "string \<Rightarrow> (string \<times> string) option" where
  "opt_digit_M s =
     (case s of
        [] \<Rightarrow> None
      | c # cs \<Rightarrow>
          if is_digit c then
            (case cs of
               [] \<Rightarrow> None
             | c' # r \<Rightarrow> if c' = CHR ''M'' then Some ([c, c'], r) else None)
          else if c = CHR ''M'' then Some ([c], cs)
          else None)"

text \<open>
  \<^verbatim>\<open>$\<close> without MULTILINE matches at the end of the string and just before a
  newline that is the last character of the string.
\<close>

definition at_dollar :: "string \<Rightarrow> bool" where
  "at_dollar s = (s = [] \<or> s = [CHR 0x0A])"

text \<open>\<^verbatim>\<open>([0-9]?M)(?:$|[+-])\<close>: the end of the string is tried before the delimiter.\<close>

definition parent_mass_tail :: "string \<Rightarrow> (string \<times> string) option" where
  "parent_mass_tail s =
     (case opt_digit_M s of
        None \<Rightarrow> None
      | Some (g, r) \<Rightarrow>
          if at_dollar r then Some (g, r)
          else (case r of
                  [] \<Rightarrow> None
                | c # r' \<Rightarrow> if is_sign c then Some (g, r') else None))"

text \<open>
  Line 47: \<^verbatim>\<open>(?:^|[+-])([0-9]?M)(?:$|[+-])\<close>. The start of the string is tried
  before the delimiter; both delimiters are consumed by the match.
\<close>

definition parent_mass_pattern :: matcher where
  "parent_mass_pattern start s =
     (case (if start then parent_mass_tail s else None) of
        Some x \<Rightarrow> Some x
      | None \<Rightarrow>
          (case s of
             [] \<Rightarrow> None
           | c # cs \<Rightarrow> if is_sign c then parent_mass_tail cs else None))"

text \<open>Line 56: \<^verbatim>\<open>([+-][0-9a-zA-Z]+)\<close>, a sign and the longest alphanumeric run.\<close>

definition ions_pattern :: matcher where
  "ions_pattern start s =
     (case s of
        [] \<Rightarrow> None
      | c # cs \<Rightarrow>
          if is_sign c \<and> takeWhile is_alnum cs \<noteq> []
          then Some (c # takeWhile is_alnum cs, dropWhile is_alnum cs)
          else None)"

text \<open>Line 106: \<^verbatim>\<open>\]([0-9]?[+-])\<close>.\<close>

definition charge_pattern :: matcher where
  "charge_pattern start s =
     (case s of
        [] \<Rightarrow> None
      | b # cs \<Rightarrow>
          if b \<noteq> CHR '']'' then None
          else (case cs of
                  [] \<Rightarrow> None
                | c # r \<Rightarrow>
                    if is_digit c then
                      (case r of
                         [] \<Rightarrow> None
                       | c' # r' \<Rightarrow> if is_sign c' then Some ([c, c'], r') else None)
                    else if is_sign c then Some ([c], r)
                    else None))"

declare findall.simps [simp del]

section \<open>The functions of the module\<close>

subsection \<open>\<^verbatim>\<open>split_ion\<close>, lines 61 to 71\<close>

text \<open>
  \<^verbatim>\<open>number\<close> is the string \<^verbatim>\<open>match.group(1)\<close> when the ion starts with digits and
  the integer literal 1 otherwise.
\<close>

datatype number = Digits string | One

text \<open>\<^verbatim>\<open>str(number)\<close>, line 83, and \<^verbatim>\<open>int(number)\<close>, lines 98 and 100.\<close>

fun str_of_number :: "number \<Rightarrow> string" where
  "str_of_number (Digits ds) = ds"
| "str_of_number One = ''1''"

fun int_of_number :: "number \<Rightarrow> int py" where
  "int_of_number (Digits ds) = int_of_str ds"
| "int_of_number One = return 1"

text \<open>
  \<^verbatim>\<open>ion[0]\<close> raises IndexError on the empty string; the assertion comes after the
  slice. \<^verbatim>\<open>re.match(r'^([0-9]+)(.*)', ion)\<close> succeeds when the text starts with a
  digit: the first group is the whole run of digits, the second the rest of the line.
\<close>

definition split_ion :: "string \<Rightarrow> (char \<times> number \<times> string) py" where
  "split_ion ion =
     (case ion of
        [] \<Rightarrow> raise IndexError
      | sign # ion1 \<Rightarrow>
          if \<not> is_sign sign then raise AssertionError
          else if takeWhile is_digit ion1 \<noteq> []
          then return (sign, Digits (takeWhile is_digit ion1),
                       takeWhile is_dot (dropWhile is_digit ion1))
          else return (sign, One, ion1))"

subsection \<open>\<^verbatim>\<open>replace_abbreviations\<close>, lines 74 to 84\<close>

definition abbrev_to_formula :: "(string \<times> string) list" where
  "abbrev_to_formula =
     [(''ACN'', ''CH3CN''), (''DMSO'', ''C2H6OS''), (''FA'', ''CH2O2''),
      (''HAc'', ''CH3COOH''), (''Hac'', ''CH3COOH''), (''TFA'', ''C2HF3O2''),
      (''IsoProp'', ''CH3CHOHCH3''), (''MeOH'', ''CH3OH'')]"

fun replace_abbreviations :: "string list \<Rightarrow> string list py" where
  "replace_abbreviations [] = return []"
| "replace_abbreviations (ion # ions_split) =
     bind (split_ion ion) (\<lambda>(sign, number, ion).
       let ion = (case map_of abbrev_to_formula ion of Some f \<Rightarrow> f | None \<Rightarrow> ion)
       in bind (replace_abbreviations ions_split) (\<lambda>corrected_ions.
            return ((sign # str_of_number number @ ion) # corrected_ions)))"

subsection \<open>\<^verbatim>\<open>get_ions_from_adduct\<close>, lines 33 to 58\<close>

text \<open>
  Lines 47 to 58, on the text the ions are read from (the content of the brackets, or
  the whole string when it has no opening bracket). \<^verbatim>\<open>parent_mass[0]\<close> on an empty
  list of matches raises IndexError.
\<close>

definition ions_of_part :: "string \<Rightarrow> (int option \<times> string list option) py" where
  "ions_of_part adduct =
     (let parent_mass = findall parent_mass_pattern True adduct in
      bind (if length parent_mass \<noteq> 1
            then logger_warning (Parent_mass_found (length parent_mass) adduct)
            else return ()) (\<lambda>_.
      case parent_mass of
        [] \<Rightarrow> raise IndexError
      | parent_mass0 # _ \<Rightarrow>
          bind (if parent_mass0 = ''M'' then return 1
                else (case parent_mass0 of
                        [] \<Rightarrow> raise IndexError
                      | c # _ \<Rightarrow> int_of_str [c])) (\<lambda>parent_mass.
          bind (replace_abbreviations (findall ions_pattern True adduct)) (\<lambda>ions_split.
          return (Some parent_mass, Some ions_split)))))"

definition get_ions_from_adduct :: "string \<Rightarrow> (int option \<times> string list option) py" where
  "get_ions_from_adduct adduct =
     (if CHR ''['' \<in> set adduct then
        (let ions_part = findall brackets_pattern True adduct in
         if length ions_part \<noteq> 1
         then bind (logger_warning (Brackets_not_once adduct)) (\<lambda>_. return (None, None))
         else ions_of_part (hd ions_part))
      else ions_of_part adduct)"

subsection \<open>\<^verbatim>\<open>get_mass_of_ion\<close>, lines 87 to 102\<close>

text \<open>
  \<^verbatim>\<open>Formula(ion).isotope.mass\<close> belongs to the library molmass: it is a parameter
  here, a function from the formula to its mass that is undefined where the library
  raises FormulaError. Masses are real numbers: the rounding of floating-point
  arithmetic is not modelled. The loop carries \<^verbatim>\<open>added_mass\<close>.
\<close>

fun mass_loop :: "(string \<Rightarrow> real option) \<Rightarrow> real \<Rightarrow> string list \<Rightarrow> real option py" where
  "mass_loop formula_mass added_mass [] = return (Some added_mass)"
| "mass_loop formula_mass added_mass (ion # ions) =
     bind (split_ion ion) (\<lambda>(sign, number, ion).
       case formula_mass ion of
         None \<Rightarrow> bind (logger_warning (Formula_not_recognized ion)) (\<lambda>_. return None)
       | Some atom_mass \<Rightarrow>
           bind (int_of_number number) (\<lambda>n.
             let number = (if sign = CHR ''-'' then - n else n)
             in mass_loop formula_mass (added_mass + real_of_int number * atom_mass) ions))"

definition get_mass_of_ion :: "(string \<Rightarrow> real option) \<Rightarrow> string list \<Rightarrow> real option py" where
  "get_mass_of_ion formula_mass ions = mass_loop formula_mass 0 ions"

subsection \<open>\<^verbatim>\<open>get_charge_of_adduct\<close>, lines 105 to 120\<close>

definition get_charge_of_adduct :: "string \<Rightarrow> int option py" where
  "get_charge_of_adduct adduct =
     (let charge = findall charge_pattern True adduct in
      if length charge \<noteq> 1
      then bind (logger_warning (Charge_found (length charge) adduct)) (\<lambda>_. return None)
      else
        (let charge = hd charge in
         if length charge = 1
         then bind (int_of_str (charge @ ''1'')) (\<lambda>i. return (Some i))
         else if length charge = 2
         then bind (int_of_str ([charge ! 1] @ [charge ! 0])) (\<lambda>i. return (Some i))
         else bind (logger_warning (Charge_length charge)) (\<lambda>_. return None)))"

subsection \<open>\<^verbatim>\<open>get_multiplier_and_mass_from_adduct\<close>, lines 13 to 30\<close>

text \<open>
  \<^verbatim>\<open>ELECTRTON_MASS\<close> is imported from \<^verbatim>\<open>matchms.constants\<close>; it is a parameter.
  Dividing by \<^verbatim>\<open>abs(charge)\<close> raises ZeroDivisionError when the charge is 0.
\<close>

definition get_multiplier_and_mass_from_adduct ::
  "(string \<Rightarrow> real option) \<Rightarrow> real \<Rightarrow> string \<Rightarrow> (real option \<times> real option) py" where
  "get_multiplier_and_mass_from_adduct formula_mass ELECTRTON_MASS adduct =
     bind (get_charge_of_adduct adduct) (\<lambda>charge.
       case charge of
         None \<Rightarrow> return (None, None)
       | Some charge \<Rightarrow>
           bind (get_ions_from_adduct adduct) (\<lambda>(parent_mass, ions).
             case parent_mass of
               None \<Rightarrow> return (None, None)
             | Some parent_mass \<Rightarrow>
                (case ions of
                   None \<Rightarrow> return (None, None)
                 | Some ions \<Rightarrow>
                     bind (get_mass_of_ion formula_mass ions) (\<lambda>mass_of_ions.
                       case mass_of_ions of
                         None \<Rightarrow> return (None, None)
                       | Some mass_of_ions \<Rightarrow>
                           (let added_mass = mass_of_ions + ELECTRTON_MASS * - real_of_int charge
                            in if charge = 0 then raise ZeroDivisionError
                               else return
                                 (Some (1 / real_of_int \<bar>charge\<bar> * real_of_int parent_mass),
                                  Some (added_mass / real_of_int \<bar>charge\<bar>)))))))"

section \<open>Notions used in the statements\<close>

text \<open>
  The charge that a matched charge text stands for: the sign is its last character, the
  magnitude its digit, or 1 when it is the sign alone.
\<close>

definition signed_magnitude :: "string \<Rightarrow> int" where
  "signed_magnitude g =
     (let magnitude = (if length g = 1 then 1 else int (digit_value (hd g)))
      in if last g = CHR ''-'' then - magnitude else magnitude)"

text \<open>
  The texts that line 56 finds: a sign and a non-empty alphanumeric run. The texts that
  \<^verbatim>\<open>replace_abbreviations\<close> builds from them: a sign, at least one digit, an
  alphanumeric rest.
\<close>

definition ion_token :: "string \<Rightarrow> bool" where
  "ion_token t =
     (case t of [] \<Rightarrow> False | c # run \<Rightarrow> is_sign c \<and> run \<noteq> [] \<and> list_all is_alnum run)"

definition normal_ion :: "string \<Rightarrow> bool" where
  "normal_ion x =
     (case x of [] \<Rightarrow> False | c # run \<Rightarrow> is_sign c \<and> takeWhile is_digit run \<noteq> []
        \<and> list_all is_alnum run)"



text \<open>
  The multiplier that a matched parent-mass text stands for (lines 51 to 54), and the
  texts that the charge pattern captures.
\<close>

definition parent_multiplier :: "string \<Rightarrow> int" where
  "parent_multiplier g = (if g = ''M'' then 1 else int (digit_value (hd g)))"

definition charge_text :: "string \<Rightarrow> bool" where
  "charge_text g = (case g of [c] \<Rightarrow> is_sign c | [d, c] \<Rightarrow> is_digit d \<and> is_sign c | _ \<Rightarrow> False)"

section \<open>Auxiliary facts\<close>

subsection \<open>Characters, numbers, matches\<close>

lemmas py_defs = bind_def return_def raise_def logger_warning_def

lemma is_digit_not_sign: "is_digit c \<Longrightarrow> \<not> is_sign c"
  by (auto simp: is_digit_def is_sign_def)

lemma is_digit_alnum: "is_digit c \<Longrightarrow> is_alnum c"
  by (auto simp: is_digit_def is_alnum_def)

lemma is_alnum_dot: "is_alnum c \<Longrightarrow> is_dot c"
  by (auto simp: is_alnum_def is_dot_def)

lemma digit_value_le_9: "is_digit c \<Longrightarrow> digit_value c \<le> 9"
  by (auto simp: is_digit_def digit_value_def)

lemma digit_value_1: "digit_value (CHR ''1'') = 1"
  by (simp add: digit_value_def)

lemma int_of_str_digits:
  "ds \<noteq> [] \<Longrightarrow> list_all is_digit ds \<Longrightarrow> int_of_str ds = return (int (decimal ds))"
  by (cases ds) (auto simp: int_of_str_def is_digit_not_sign)

lemma int_of_str_signed_digit:
  "is_sign c \<Longrightarrow> is_digit d \<Longrightarrow>
   int_of_str [c, d] = return (if c = CHR ''-'' then - int (digit_value d) else int (digit_value d))"
  by (simp add: int_of_str_def decimal_def is_digit_not_sign)

lemma findall_None_Nil: "m start [] = None \<Longrightarrow> findall m start [] = []"
  by (simp add: findall.simps [of m start "[]"])

lemma findall_None_Cons:
  "m start (c # cs) = None \<Longrightarrow> findall m start (c # cs) = findall m False cs"
  by (simp add: findall.simps [of m start "c # cs"])

lemma findall_Some:
  "m start s = Some (g, r) \<Longrightarrow> length r < length s \<Longrightarrow>
   findall m start s = g # findall m False r"
  by (simp add: findall.simps [of m start s])

lemma findall_Some_empty_match:
  "m start s = Some (g, r) \<Longrightarrow> \<not> length r < length s \<Longrightarrow>
   findall m start s = g # (case s of [] \<Rightarrow> [] | _ # cs \<Rightarrow> findall m False cs)"
  by (subst findall.simps) (simp split: list.splits)

lemma findall_groups:
  assumes P: "\<And>st s g r. m st s = Some (g, r) \<Longrightarrow> P g"
  shows "g \<in> set (findall m start s) \<Longrightarrow> P g"
proof (induction s arbitrary: start rule: length_induct)
  case (1 s)
  show ?case
  proof (cases "m start s")
    case None
    show ?thesis
    proof (cases s)
      case Nil
      with None "1.prems" show ?thesis by (simp add: findall_None_Nil)
    next
      case (Cons c cs)
      with None "1.prems" have "g \<in> set (findall m False cs)"
        by (simp add: findall_None_Cons)
      moreover have "length cs < length s" using Cons by simp
      ultimately show ?thesis using "1.IH" by blast
    qed
  next
    case (Some a)
    obtain g' r where a: "m start s = Some (g', r)" using Some by (cases a) simp
    have Pg': "P g'" using P a by blast
    show ?thesis
    proof (cases "length r < length s")
      case True
      with a "1.prems" have "g = g' \<or> g \<in> set (findall m False r)"
        by (simp add: findall_Some)
      with Pg' "1.IH" True show ?thesis by blast
    next
      case False
      with a "1.prems" have "g = g' \<or> (\<exists>c cs. s = c # cs \<and> g \<in> set (findall m False cs))"
        by (cases s) (auto simp: findall_Some_empty_match)
      then show ?thesis
      proof
        assume "g = g'" with Pg' show ?thesis by simp
      next
        assume "\<exists>c cs. s = c # cs \<and> g \<in> set (findall m False cs)"
        then obtain c cs where "s = c # cs" "g \<in> set (findall m False cs)" by blast
        moreover from this have "length cs < length s" by simp
        ultimately show ?thesis using "1.IH" by blast
      qed
    qed
  qed
qed

lemma charge_pattern_group:
  "charge_pattern st s = Some (g, r) \<Longrightarrow>
   (\<exists>c. is_sign c \<and> g = [c]) \<or> (\<exists>d c. is_digit d \<and> is_sign c \<and> g = [d, c])"
  by (auto simp: charge_pattern_def split: list.splits if_splits)

lemma parent_mass_pattern_group:
  "parent_mass_pattern st s = Some (g, r) \<Longrightarrow>
   g = ''M'' \<or> (\<exists>d. is_digit d \<and> g = [d, CHR ''M''])"
  by (auto simp: parent_mass_pattern_def parent_mass_tail_def opt_digit_M_def
      split: list.splits if_splits option.splits)

lemma ions_pattern_group:
  "ions_pattern st s = Some (g, r) \<Longrightarrow>
   (\<exists>c run. g = c # run \<and> is_sign c \<and> run \<noteq> [] \<and> list_all is_alnum run)"
  by (auto simp: ions_pattern_def list_all_iff split: list.splits if_splits dest: set_takeWhileD)

subsection \<open>The charge\<close>

lemma charge_groups:
  "g \<in> set (findall charge_pattern start s) \<Longrightarrow>
   (\<exists>c. is_sign c \<and> g = [c]) \<or> (\<exists>d c. is_digit d \<and> is_sign c \<and> g = [d, c])"
  by (rule findall_groups [where m = charge_pattern]) (rule charge_pattern_group)

lemma is_digit_1: "is_digit (CHR ''1'')"
  by (simp add: is_digit_def)

lemma get_charge_single:
  assumes "findall charge_pattern True s = [g]"
  shows "get_charge_of_adduct s = ([], Inr (Some (signed_magnitude g)))"
proof -
  have "g \<in> set (findall charge_pattern True s)" using assms by simp
  then consider c where "is_sign c" "g = [c]"
    | d c where "is_digit d" "is_sign c" "g = [d, c]"
    using charge_groups by blast
  then show ?thesis
  proof cases
    case 1
    then show ?thesis using assms
      by (simp add: get_charge_of_adduct_def int_of_str_signed_digit is_digit_1
          digit_value_1 signed_magnitude_def py_defs)
  next
    case 2
    then show ?thesis using assms
      by (simp add: get_charge_of_adduct_def int_of_str_signed_digit
          signed_magnitude_def py_defs)
  qed
qed

lemma get_charge_not_single:
  "length (findall charge_pattern True s) \<noteq> 1 \<Longrightarrow>
   get_charge_of_adduct s = ([Charge_found (length (findall charge_pattern True s)) s], Inr None)"
  by (simp add: get_charge_of_adduct_def py_defs)

lemma length_1_iff: "length xs = 1 \<longleftrightarrow> (\<exists>x. xs = [x])"
  by (cases xs) auto

lemma length_1_E: "length xs = 1 \<Longrightarrow> (\<And>x. xs = [x] \<Longrightarrow> thesis) \<Longrightarrow> thesis"
  by (cases xs) auto

lemma entry_no_charge:
  "length (findall charge_pattern True s) \<noteq> 1 \<Longrightarrow>
   get_multiplier_and_mass_from_adduct fm e s =
     ([Charge_found (length (findall charge_pattern True s)) s], Inr (None, None))"
  by (simp add: get_multiplier_and_mass_from_adduct_def get_charge_not_single py_defs)

subsection \<open>Ion texts and their normal form\<close>

lemma ions_groups: "t \<in> set (findall ions_pattern start w) \<Longrightarrow> ion_token t"
proof (rule findall_groups [where m = ions_pattern and P = ion_token])
  fix st s g r assume "ions_pattern st s = Some (g, r)"
  then show "ion_token g"
    by (auto simp: ion_token_def dest: ions_pattern_group)
qed

lemma takeWhile_dot_alnum: "list_all is_alnum r \<Longrightarrow> takeWhile is_dot r = r"
  by (induction r) (auto simp: is_alnum_dot)

lemma abbrev_table:
  "list_all (\<lambda>(a, f). f \<noteq> [] \<and> \<not> is_digit (hd f) \<and> list_all is_alnum f
       \<and> map_of abbrev_to_formula f = None
       \<and> a \<noteq> [] \<and> \<not> is_digit (hd a) \<and> list_all is_alnum a) abbrev_to_formula"
  by code_simp

lemma abbrev_formula:
  assumes "map_of abbrev_to_formula a = Some f"
  shows "f \<noteq> []" "\<not> is_digit (hd f)" "list_all is_alnum f" "map_of abbrev_to_formula f = None"
    "a \<noteq> []" "\<not> is_digit (hd a)" "list_all is_alnum a"
proof -
  have "(a, f) \<in> set abbrev_to_formula" using assms by (rule map_of_SomeD)
  with abbrev_table have "f \<noteq> [] \<and> \<not> is_digit (hd f) \<and> list_all is_alnum f
       \<and> map_of abbrev_to_formula f = None
       \<and> a \<noteq> [] \<and> \<not> is_digit (hd a) \<and> list_all is_alnum a"
    unfolding list_all_iff by blast
  then show "f \<noteq> []" "\<not> is_digit (hd f)" "list_all is_alnum f" "map_of abbrev_to_formula f = None"
    "a \<noteq> []" "\<not> is_digit (hd a)" "list_all is_alnum a" by simp_all
qed

lemma split_ion_parts:
  assumes "is_sign c" "list_all is_digit ds" "r = [] \<or> \<not> is_digit (hd r)"
  shows "split_ion (c # ds @ r) =
           return (c, if ds = [] then One else Digits ds, if ds = [] then r else takeWhile is_dot r)"
proof -
  have tw: "takeWhile is_digit (ds @ r) = ds"
    using assms(2,3) by (cases r) (auto simp: list_all_iff takeWhile_append2 )
  have dw: "dropWhile is_digit (ds @ r) = r"
    using assms(2,3) by (cases r) (auto simp: list_all_iff dropWhile_append2)
  show ?thesis using assms(1) tw dw
    by (cases "ds = []") (simp_all add: split_ion_def)
qed

lemma ion_token_parts:
  assumes "ion_token t"
  obtains c ds r where "t = c # ds @ r" "is_sign c" "list_all is_digit ds"
    "r = [] \<or> \<not> is_digit (hd r)" "list_all is_alnum r" "ds \<noteq> [] \<or> r \<noteq> []"
proof -
  from assms obtain c run where t: "t = c # run" "is_sign c" "run \<noteq> []" "list_all is_alnum run"
    by (auto simp: ion_token_def split: list.splits)
  let ?ds = "takeWhile is_digit run" and ?r = "dropWhile is_digit run"
  have 1: "t = c # ?ds @ ?r" using t by simp
  have 2: "list_all is_digit ?ds" by (auto simp: list_all_iff dest: set_takeWhileD)
  have 3: "?r = [] \<or> \<not> is_digit (hd ?r)" by (cases "?r = []") (auto simp: hd_dropWhile)
  have 4: "list_all is_alnum ?r" using t(4) by (auto simp: list_all_iff dest: set_dropWhileD)
  have 5: "?ds \<noteq> [] \<or> ?r \<noteq> []" using t(3) by (cases run) auto
  from that [OF 1 t(2) 2 3 4 5] show thesis .
qed


lemma str_of_number_digits:
  "number = One \<or> (\<exists>ds. number = Digits ds \<and> ds \<noteq> [] \<and> list_all is_digit ds) \<Longrightarrow>
   str_of_number number \<noteq> [] \<and> list_all is_digit (str_of_number number)"
  by (auto simp: is_digit_def)

lemma split_ion_token:
  assumes "ion_token t"
  obtains sign number ion where
    "split_ion t = return (sign, number, ion)" "is_sign sign"
    "number = One \<or> (\<exists>ds. number = Digits ds \<and> ds \<noteq> [] \<and> list_all is_digit ds)"
    "list_all is_alnum ion" "ion = [] \<or> \<not> is_digit (hd ion)"
    "t = sign # (case number of One \<Rightarrow> [] | Digits ds \<Rightarrow> ds) @ ion"
proof -
  from assms obtain c ds r where p: "t = c # ds @ r" "is_sign c" "list_all is_digit ds"
    "r = [] \<or> \<not> is_digit (hd r)" "list_all is_alnum r" "ds \<noteq> [] \<or> r \<noteq> []"
    by (rule ion_token_parts)
  have s: "split_ion t = return (c, if ds = [] then One else Digits ds, r)"
    using split_ion_parts [OF p(2,3,4)] p(1,5) by (simp add: takeWhile_dot_alnum)
  show thesis
    by (rule that [OF s p(2)]) (use p in auto)
qed


lemma expand_shape:
  assumes "list_all is_alnum ion" "ion = [] \<or> \<not> is_digit (hd ion)"
  shows "list_all is_alnum (case map_of abbrev_to_formula ion of Some f \<Rightarrow> f | None \<Rightarrow> ion)"
    and "(case map_of abbrev_to_formula ion of Some f \<Rightarrow> f | None \<Rightarrow> ion) = [] \<or>
         \<not> is_digit (hd (case map_of abbrev_to_formula ion of Some f \<Rightarrow> f | None \<Rightarrow> ion))"
  using assms by (auto split: option.splits dest: abbrev_formula)

lemma normal_ion_built:
  assumes "is_sign sign"
    and "number = One \<or> (\<exists>ds. number = Digits ds \<and> ds \<noteq> [] \<and> list_all is_digit ds)"
    and "list_all is_alnum ion"
  shows "normal_ion (sign # str_of_number number @ ion)"
proof -
  from str_of_number_digits [OF assms(2)] obtain d ds where
    "str_of_number number = d # ds" "is_digit d" "list_all is_digit ds"
    by (cases "str_of_number number") auto
  with assms(1,3) show ?thesis
    by (auto simp: normal_ion_def list_all_iff is_digit_alnum)
qed

lemma replace_abbreviations_tokens:
  "list_all ion_token ts \<Longrightarrow>
   \<exists>xs. replace_abbreviations ts = return xs \<and> list_all normal_ion xs \<and> length xs = length ts"
proof (induction ts)
  case Nil
  then show ?case by simp
next
  case (Cons t ts)
  then obtain xs where xs: "replace_abbreviations ts = return xs" "list_all normal_ion xs"
    "length xs = length ts" by auto
  from Cons.prems have "ion_token t" by simp
  then obtain sign number ion where sp: "split_ion t = return (sign, number, ion)" "is_sign sign"
    "number = One \<or> (\<exists>ds. number = Digits ds \<and> ds \<noteq> [] \<and> list_all is_digit ds)"
    "list_all is_alnum ion" "ion = [] \<or> \<not> is_digit (hd ion)"
    by (rule split_ion_token)
  let ?ion = "case map_of abbrev_to_formula ion of Some f \<Rightarrow> f | None \<Rightarrow> ion"
  have eq: "replace_abbreviations (t # ts) = return ((sign # str_of_number number @ ?ion) # xs)"
    using sp(1) xs(1) by (simp add: py_defs)
  have "normal_ion (sign # str_of_number number @ ?ion)"
    using sp(2,3) expand_shape(1) [OF sp(4,5)] by (rule normal_ion_built)
  then show ?case unfolding eq using xs(2,3) by (simp add: return_def)
qed



subsection \<open>The sum of the ion masses\<close>

lemma snd_bind: "snd (bind m f) = (case snd m of Inl e \<Rightarrow> Inl e | Inr x \<Rightarrow> snd (f x))"
  by (cases m) (auto simp: bind_def split: sum.splits prod.splits)

lemma fst_bind:
  "fst (bind m f) = (case snd m of Inl e \<Rightarrow> fst m | Inr x \<Rightarrow> fst m @ fst (f x))"
  by (cases m) (auto simp: bind_def split: sum.splits prod.splits)








lemma parent_groups:
  "g \<in> set (findall parent_mass_pattern start w) \<Longrightarrow>
   g = ''M'' \<or> (\<exists>d. is_digit d \<and> g = [d, CHR ''M''])"
  by (rule findall_groups [where m = parent_mass_pattern]) (rule parent_mass_pattern_group)

lemma ions_found_normal:
  "\<exists>xs. replace_abbreviations (findall ions_pattern True w) = return xs \<and> list_all normal_ion xs"
proof -
  have "list_all ion_token (findall ions_pattern True w)"
    by (simp add: list_all_iff ions_groups)
  from replace_abbreviations_tokens [OF this] show ?thesis by blast
qed

lemma ions_of_part_no_parent:
  "findall parent_mass_pattern True w = [] \<Longrightarrow>
   ions_of_part w = ([Parent_mass_found 0 w], Inl IndexError)"
  by (simp add: ions_of_part_def py_defs)

lemma ions_of_part_parent:
  assumes "findall parent_mass_pattern True w = g # gs"
  shows "\<exists>xs. ions_of_part w =
           (if gs = [] then [] else [Parent_mass_found (Suc (length gs)) w],
            Inr (Some (parent_multiplier g), Some xs))
         \<and> replace_abbreviations (findall ions_pattern True w) = return xs
         \<and> list_all normal_ion xs"
proof -
  obtain xs where xs: "replace_abbreviations (findall ions_pattern True w) = return xs"
    "list_all normal_ion xs" using ions_found_normal by blast
  have "g \<in> set (findall parent_mass_pattern True w)" using assms by simp
  then consider "g = ''M''" | d where "is_digit d" "g = [d, CHR ''M'']"
    using parent_groups by blast
  then have "ions_of_part w =
           (if gs = [] then [] else [Parent_mass_found (Suc (length gs)) w],
            Inr (Some (parent_multiplier g), Some xs))"
  proof cases
    case 1
    with assms xs(1) show ?thesis
      by (simp add: ions_of_part_def py_defs parent_multiplier_def)
  next
    case 2
    with assms xs(1) show ?thesis
      by (simp add: ions_of_part_def py_defs parent_multiplier_def int_of_str_digits decimal_def)
  qed
  with xs show ?thesis by blast
qed

lemma parent_multiplier_range:
  assumes "g = ''M'' \<or> (\<exists>d. is_digit d \<and> g = [d, CHR ''M''])"
  shows "0 \<le> parent_multiplier g" "parent_multiplier g \<le> 9"
    "parent_multiplier g = 0 \<longleftrightarrow> g = ''0M''"
  using assms by (auto simp: parent_multiplier_def is_digit_def digit_value_def)

subsection \<open>The entry point\<close>

lemma get_ions_from_adduct_part:
  "snd (get_ions_from_adduct s) = Inr (Some p, ions) \<Longrightarrow>
   \<exists>w. get_ions_from_adduct s = ions_of_part w"
  by (auto simp: get_ions_from_adduct_def py_defs Let_def split: if_splits)

lemma ions_of_part_success:
  assumes "snd (ions_of_part w) = Inr (Some p, ions)"
  shows "\<exists>g gs xs. findall parent_mass_pattern True w = g # gs \<and> p = parent_multiplier g
           \<and> ions = Some xs \<and> list_all normal_ion xs
           \<and> (g = ''M'' \<or> (\<exists>d. is_digit d \<and> g = [d, CHR ''M'']))"
proof (cases "findall parent_mass_pattern True w")
  case Nil
  with assms show ?thesis by (simp add: ions_of_part_no_parent)
next
  case (Cons g gs)
  from ions_of_part_parent [OF Cons] obtain xs where
    "ions_of_part w = (if gs = [] then [] else [Parent_mass_found (Suc (length gs)) w],
            Inr (Some (parent_multiplier g), Some xs))" "list_all normal_ion xs" by blast
  moreover have "g = ''M'' \<or> (\<exists>d. is_digit d \<and> g = [d, CHR ''M''])"
    using parent_groups [of g True w] Cons by simp
  ultimately show ?thesis using assms Cons by auto
qed

lemma get_ions_from_adduct_success:
  assumes "snd (get_ions_from_adduct s) = Inr (Some p, ions)"
  shows "\<exists>xs. ions = Some xs \<and> list_all normal_ion xs" "0 \<le> p" "p \<le> 9"
proof -
  from get_ions_from_adduct_part [OF assms] obtain w where
    "get_ions_from_adduct s = ions_of_part w" by blast
  with assms have "snd (ions_of_part w) = Inr (Some p, ions)" by simp
  from ions_of_part_success [OF this] obtain g gs xs where
    *: "p = parent_multiplier g" "ions = Some xs" "list_all normal_ion xs"
    "g = ''M'' \<or> (\<exists>d. is_digit d \<and> g = [d, CHR ''M''])" by blast
  from * show "\<exists>xs. ions = Some xs \<and> list_all normal_ion xs" by blast
  from *(1) parent_multiplier_range [OF *(4)] show "0 \<le> p" "p \<le> 9" by simp_all
qed

lemma entry_success:
  assumes "snd (get_multiplier_and_mass_from_adduct fm e s) = Inr (Some m, cm)"
  shows "\<exists>c p ions S. snd (get_charge_of_adduct s) = Inr (Some c) \<and> c \<noteq> 0
           \<and> snd (get_ions_from_adduct s) = Inr (Some p, Some ions)
           \<and> snd (get_mass_of_ion fm ions) = Inr (Some S)
           \<and> m = 1 / real_of_int \<bar>c\<bar> * real_of_int p
           \<and> cm = Some ((S + e * - real_of_int c) / real_of_int \<bar>c\<bar>)"
  using assms
  by (auto simp: get_multiplier_and_mass_from_adduct_def snd_bind return_def raise_def Let_def
      split: sum.splits option.splits prod.splits if_splits)

lemma entry_resolved:
  assumes "snd (get_charge_of_adduct s) = Inr (Some c)"
    and "snd (get_ions_from_adduct s) = Inr (Some p, Some ions)"
    and "snd (get_mass_of_ion fm ions) = Inr (Some S)"
    and "c \<noteq> 0"
  shows "snd (get_multiplier_and_mass_from_adduct fm e s) =
           Inr (Some (real_of_int p / real_of_int \<bar>c\<bar>),
                Some ((S + e * real_of_int (- c)) / real_of_int \<bar>c\<bar>))"
  using assms
  by (simp add: get_multiplier_and_mass_from_adduct_def snd_bind return_def raise_def Let_def)

lemma length_ge_2_E:
  assumes "2 \<le> length xs"
  obtains a b r where "xs = a # b # r"
proof (cases xs)
  case Nil
  with assms show ?thesis by simp
next
  case (Cons a ys)
  with assms that show ?thesis by (cases ys) auto
qed

subsection \<open>Text around the brackets\<close>

lemma charge_pattern_head:
  "CHR '']'' \<notin> set xs \<Longrightarrow> c \<in> set xs \<Longrightarrow> charge_pattern st (c # cs) = None"
  by (auto simp: charge_pattern_def)

lemma brackets_pattern_head:
  "CHR ''['' \<notin> set xs \<Longrightarrow> c \<in> set xs \<Longrightarrow> brackets_pattern st (c # cs) = None"
  by (auto simp: brackets_pattern_def)

lemma findall_skip:
  assumes "\<And>c cs st. c \<in> set pre \<Longrightarrow> m st (c # cs) = None"
  shows "findall m st (pre @ x) = (if pre = [] then findall m st x else findall m False x)"
  using assms
proof (induction pre arbitrary: st)
  case Nil
  then show ?case by simp
next
  case (Cons c pre)
  have "findall m st ((c # pre) @ x) = findall m False (pre @ x)"
    using Cons.prems [of c] by (simp add: findall_None_Cons)
  also have "\<dots> = (if pre = [] then findall m False x else findall m False x)"
    using Cons.prems by (intro Cons.IH) simp
  finally show ?case by simp
qed

lemma findall_no_match:
  assumes "\<And>c cs st. c \<in> set x \<Longrightarrow> m st (c # cs) = None" "\<And>st. m st [] = None"
  shows "findall m st x = []"
  using assms
proof (induction x arbitrary: st)
  case Nil
  then show ?case by (simp add: findall_None_Nil)
next
  case (Cons c x)
  have "findall m st (c # x) = findall m False x"
    using Cons.prems(1) [of c] by (simp add: findall_None_Cons)
  with Cons show ?case by simp
qed

lemma findall_start:
  "m True x = m False x \<Longrightarrow> findall m True x = findall m False x"
  by (simp add: findall.simps [of m True x] findall.simps [of m False x])

lemma dot_star_close_none: "CHR '']'' \<notin> set r \<Longrightarrow> dot_star_close r = None"
  by (induction r) auto

lemma dot_star_close_body:
  "list_all is_dot body \<Longrightarrow> CHR '']'' \<notin> set r \<Longrightarrow>
   dot_star_close (body @ CHR '']'' # r) = Some (body, r)"
  by (induction body) (auto simp: dot_star_close_none is_dot_def)

lemma charge_pattern_close:
  "charge_text g \<Longrightarrow> charge_pattern st (CHR '']'' # g @ r) = Some (g, r)"
  by (auto simp: charge_text_def charge_pattern_def is_digit_not_sign split: list.splits)

lemma findall_charge_around:
  assumes "CHR '']'' \<notin> set pre" "CHR '']'' \<notin> set body" "CHR '']'' \<notin> set post" "charge_text g"
  shows "findall charge_pattern True (pre @ CHR ''['' # body @ CHR '']'' # g @ post) = [g]"
proof -
  let ?tail = "CHR '']'' # g @ post"
  have "CHR '']'' \<notin> set (pre @ CHR ''['' # body)" using assms(1,2) by simp
  then have "findall charge_pattern True ((pre @ CHR ''['' # body) @ ?tail) =
        findall charge_pattern False ?tail"
    by (subst findall_skip) (auto intro: charge_pattern_head simp: charge_pattern_def)
  also have "\<dots> = g # findall charge_pattern False post"
    using charge_pattern_close [OF assms(4)] by (intro findall_Some) auto
  also have "findall charge_pattern False post = []"
    using assms(3) by (intro findall_no_match) (auto intro: charge_pattern_head simp: charge_pattern_def)
  finally show ?thesis by simp
qed

lemma findall_brackets_around:
  assumes "CHR ''['' \<notin> set pre" "list_all is_dot body" "CHR ''['' \<notin> set r" "CHR '']'' \<notin> set r"
  shows "findall brackets_pattern True (pre @ CHR ''['' # body @ CHR '']'' # r) = [body]"
proof -
  let ?tail = "CHR ''['' # body @ CHR '']'' # r"
  have "findall brackets_pattern True (pre @ ?tail) = findall brackets_pattern False ?tail"
  proof (cases "pre = []")
    case True
    then show ?thesis by (simp add: findall_start brackets_pattern_def)
  next
    case False
    then show ?thesis using assms(1)
      by (subst findall_skip) (auto intro: brackets_pattern_head)
  qed
  also have "\<dots> = body # findall brackets_pattern False r"
    using dot_star_close_body [OF assms(2,4)]
    by (intro findall_Some) (auto simp: brackets_pattern_def)
  also have "findall brackets_pattern False r = []"
    using assms(3) by (intro findall_no_match) (auto intro: brackets_pattern_head simp: brackets_pattern_def)
  finally show ?thesis by simp
qed

subsection \<open>The outcomes of a call\<close>


lemma get_charge_returns: "\<exists>ws c. get_charge_of_adduct s = (ws, Inr c)"
proof (cases "length (findall charge_pattern True s) = 1")
  case True
  then obtain g where "findall charge_pattern True s = [g]" by (rule length_1_E)
  then show ?thesis by (simp add: get_charge_single)
next
  case False
  then show ?thesis by (simp add: get_charge_not_single)
qed




lemma entry_no_brackets:
  assumes "CHR ''['' \<in> set s" "length (findall brackets_pattern True s) \<noteq> 1"
  shows "snd (get_multiplier_and_mass_from_adduct fm e s) = Inr (None, None)"
proof -
  obtain wc c where c: "get_charge_of_adduct s = (wc, Inr c)"
    using get_charge_returns by blast
  have "get_ions_from_adduct s = ([Brackets_not_once s], Inr (None, None))"
    using assms by (simp add: get_ions_from_adduct_def py_defs)
  with c show ?thesis
    by (cases c) (simp_all add: get_multiplier_and_mass_from_adduct_def snd_bind return_def)
qed

section \<open>The claims\<close>




text \<open>
  C3. The claim: whenever the parent-mass token matches a number of times other than
  one, zero times included, a warning is logged and the parsing goes on with the first
  match, without an exception. With zero matches there is no first match: the warning
  is logged and \<^verbatim>\<open>parent_mass[0]\<close> raises IndexError.
\<close>

theorem absent_parent_mass_raises:
  "length (findall parent_mass_pattern True ''H'') \<noteq> 1
   \<and> ions_of_part ''H'' = ([Parent_mass_found 0 ''H''], Inl IndexError)
   \<and> get_ions_from_adduct ''[H]+'' = ([Parent_mass_found 0 ''H''], Inl IndexError)"
  by code_simp

text \<open>
  C3, amended. For every text in which the parent-mass token matches two or more times,
  line 49 logs the warning with the number of matches and the parsing goes on with the
  first match: the result is the multiplier of that match with the normalized ions, and
  no exception. (\<open>ions_of_part\<close> is lines 47 to 58; the last two parts say on which text
  \<^verbatim>\<open>get_ions_from_adduct\<close> runs them.)
\<close>

theorem repeated_parent_mass_uses_first:
  "(2 \<le> length (findall parent_mass_pattern True w) \<longrightarrow>
     (\<exists>ions. ions_of_part w =
        ([Parent_mass_found (length (findall parent_mass_pattern True w)) w],
         Inr (Some (parent_multiplier (hd (findall parent_mass_pattern True w))), Some ions))
       \<and> replace_abbreviations (findall ions_pattern True w) = return ions))
   \<and> (CHR ''['' \<notin> set w \<longrightarrow> get_ions_from_adduct w = ions_of_part w)
   \<and> (CHR ''['' \<in> set s \<longrightarrow> findall brackets_pattern True s = [w] \<longrightarrow>
        get_ions_from_adduct s = ions_of_part w)"
proof (intro conjI impI)
  assume "2 \<le> length (findall parent_mass_pattern True w)"
  then obtain g g' gs where f: "findall parent_mass_pattern True w = g # g' # gs"
    by (rule length_ge_2_E)
  from ions_of_part_parent [OF f] f
  show "\<exists>ions. ions_of_part w =
        ([Parent_mass_found (length (findall parent_mass_pattern True w)) w],
         Inr (Some (parent_multiplier (hd (findall parent_mass_pattern True w))), Some ions))
       \<and> replace_abbreviations (findall ions_pattern True w) = return ions"
    by auto
next
  assume "CHR ''['' \<notin> set w"
  then show "get_ions_from_adduct w = ions_of_part w"
    by (simp add: get_ions_from_adduct_def)
next
  assume "CHR ''['' \<in> set s" "findall brackets_pattern True s = [w]"
  then show "get_ions_from_adduct s = ions_of_part w"
    by (simp add: get_ions_from_adduct_def)
qed

theorem repeated_parent_mass_uses_first_witness:
  "2 \<le> length (findall parent_mass_pattern True ''2M+H-M'')
   \<and> ions_of_part ''2M+H-M'' = ([Parent_mass_found 2 ''2M+H-M''], Inr (Some 2, Some [''+1H'', ''-1M'']))
   \<and> get_ions_from_adduct ''[2M+H-M]+'' = ions_of_part ''2M+H-M''"
proof -
  have a: "findall parent_mass_pattern True ''2M+H-M'' = [''2M'', ''M'']" by code_simp
  have b: "replace_abbreviations (findall ions_pattern True ''2M+H-M'') = return [''+1H'', ''-1M'']"
    by code_simp
  have c: "CHR ''['' \<in> set ''[2M+H-M]+''" by simp
  have d: "findall brackets_pattern True ''[2M+H-M]+'' = [''2M+H-M'']" by code_simp
  show ?thesis
    using repeated_parent_mass_uses_first [of "''2M+H-M''" "''[2M+H-M]+''"] a b c d
    by (simp add: parent_multiplier_def digit_value_def return_def)
qed

text \<open>
  C4. For every input string, the charge is extracted if and only if the pattern
  \<^verbatim>\<open>\]([0-9]?[+-])\<close> matches exactly once. The charge is then the signed magnitude of
  the matched text (magnitude 1 without a digit: \<^verbatim>\<open>2+\<close> gives 2, \<^verbatim>\<open>-\<close> gives -1).
  With no match or several, the whole call returns (None, None).
\<close>

theorem charge_extracted_iff_one_match:
  "((\<exists>c. snd (get_charge_of_adduct s) = Inr (Some c)) \<longleftrightarrow>
      length (findall charge_pattern True s) = 1)
   \<and> (\<forall>g. findall charge_pattern True s = [g] \<longrightarrow>
         get_charge_of_adduct s = ([], Inr (Some (signed_magnitude g))))
   \<and> (length (findall charge_pattern True s) \<noteq> 1 \<longrightarrow>
         snd (get_multiplier_and_mass_from_adduct formula_mass e s) = Inr (None, None))
   \<and> signed_magnitude ''2+'' = 2 \<and> signed_magnitude ''-'' = - 1"
proof (intro conjI allI impI)
  show "(\<exists>c. snd (get_charge_of_adduct s) = Inr (Some c)) \<longleftrightarrow>
      length (findall charge_pattern True s) = 1"
  proof (cases "length (findall charge_pattern True s) = 1")
    case True
    then obtain g where "findall charge_pattern True s = [g]"
      by (rule length_1_E)
    with True show ?thesis by (simp add: get_charge_single)
  next
    case False
    then show ?thesis by (simp add: get_charge_not_single)
  qed
next
  fix g assume "findall charge_pattern True s = [g]"
  then show "get_charge_of_adduct s = ([], Inr (Some (signed_magnitude g)))"
    by (rule get_charge_single)
next
  assume "length (findall charge_pattern True s) \<noteq> 1"
  then show "snd (get_multiplier_and_mass_from_adduct formula_mass e s) = Inr (None, None)"
    by (simp add: entry_no_charge)
next
  show "signed_magnitude ''2+'' = 2" by (simp add: signed_magnitude_def digit_value_def)
  show "signed_magnitude ''-'' = - 1" by (simp add: signed_magnitude_def)
qed

theorem charge_extracted_iff_one_match_witness:
  "findall charge_pattern True ''[M+H]2+'' = [''2+'']
   \<and> get_charge_of_adduct ''[M+H]2+'' = ([], Inr (Some 2))
   \<and> length (findall charge_pattern True ''[M+H]'') \<noteq> 1
   \<and> snd (get_multiplier_and_mass_from_adduct (\<lambda>_. None) 0 ''[M+H]'') = Inr (None, None)"
proof -
  have a: "findall charge_pattern True ''[M+H]2+'' = [''2+'']" by code_simp
  have b: "length (findall charge_pattern True ''[M+H]'') \<noteq> 1" by code_simp
  show ?thesis
    using a b charge_extracted_iff_one_match [of "''[M+H]2+''"]
      charge_extracted_iff_one_match [of "''[M+H]''" "\<lambda>_. None" 0]
    by (simp add: signed_magnitude_def digit_value_def)
qed

text \<open>
  C5. The claim: an extracted charge is never 0, so dividing by its absolute value is
  safe. The code extracts the charge 0 from the charge text \<^verbatim>\<open>0+\<close>, and line 28
  then divides by zero.
\<close>

theorem zero_charge_divides_by_zero:
  "get_charge_of_adduct ''[M]0+'' = ([], Inr (Some 0))
   \<and> get_multiplier_and_mass_from_adduct formula_mass e ''[M]0+'' = ([], Inl ZeroDivisionError)"
proof
  show c: "get_charge_of_adduct ''[M]0+'' = ([], Inr (Some 0))" by code_simp
  have i: "get_ions_from_adduct ''[M]0+'' = ([], Inr (Some 1, Some []))" by code_simp
  show "get_multiplier_and_mass_from_adduct formula_mass e ''[M]0+'' = ([], Inl ZeroDivisionError)"
    by (simp add: get_multiplier_and_mass_from_adduct_def c i get_mass_of_ion_def py_defs)
qed

text \<open>
  C6. The claim: a parsed parent multiplier is a positive integer, so the multiplier
  returned on success is positive. It fails for the parent-mass token \<^verbatim>\<open>0M\<close>: the
  parsed multiplier is 0 and so is the multiplier returned.
\<close>

theorem zero_parent_multiplier:
  "get_ions_from_adduct ''[0M+H]+'' = ([], Inr (Some 0, Some [''+1H'']))
   \<and> get_multiplier_and_mass_from_adduct Map.empty 1 ''[0M]+'' = ([], Inr (Some 0, Some (- 1)))"
proof
  show "get_ions_from_adduct ''[0M+H]+'' = ([], Inr (Some 0, Some [''+1H'']))" by code_simp
  have c: "get_charge_of_adduct ''[0M]+'' = ([], Inr (Some 1))" by code_simp
  have i: "get_ions_from_adduct ''[0M]+'' = ([], Inr (Some 0, Some []))" by code_simp
  show "get_multiplier_and_mass_from_adduct Map.empty 1 ''[0M]+'' = ([], Inr (Some 0, Some (- 1)))"
    by (simp add: get_multiplier_and_mass_from_adduct_def c i get_mass_of_ion_def py_defs)
qed

text \<open>
  C6, amended. A parsed parent multiplier is an integer from 0 to 9: it is the multiplier
  of the first parent-mass match, 1 for a bare \<^verbatim>\<open>M\<close>, and 0 exactly for
  \<^verbatim>\<open>0M\<close>. The multiplier returned on success is not negative, and it is positive
  exactly when the parsed parent multiplier is.
\<close>

theorem parent_multiplier_is_a_digit:
  "(snd (get_ions_from_adduct s) = Inr (Some p, ions) \<longrightarrow> 0 \<le> p \<and> p \<le> 9)
   \<and> (snd (ions_of_part w) = Inr (Some p, ions) \<longrightarrow>
        (\<exists>g gs. findall parent_mass_pattern True w = g # gs \<and> p = parent_multiplier g
           \<and> (g = ''M'' \<longrightarrow> p = 1) \<and> (p = 0 \<longleftrightarrow> g = ''0M'')))
   \<and> (snd (get_multiplier_and_mass_from_adduct formula_mass e s) = Inr (Some m, cm) \<longrightarrow>
        0 \<le> m \<and> (\<exists>p ions. snd (get_ions_from_adduct s) = Inr (Some p, ions)
                     \<and> (0 < m \<longleftrightarrow> 0 < p)))"
proof (intro conjI impI)
  assume a: "snd (get_ions_from_adduct s) = Inr (Some p, ions)"
  from get_ions_from_adduct_success(2,3) [OF a] show "0 \<le> p" "p \<le> 9" .
next
  assume "snd (ions_of_part w) = Inr (Some p, ions)"
  from ions_of_part_success [OF this] obtain g gs where
    g: "findall parent_mass_pattern True w = g # gs" "p = parent_multiplier g"
    "g = ''M'' \<or> (\<exists>d. is_digit d \<and> g = [d, CHR ''M''])" by blast
  have "g = ''M'' \<longrightarrow> p = 1" using g(2) by (simp add: parent_multiplier_def)
  moreover have "p = 0 \<longleftrightarrow> g = ''0M''" using parent_multiplier_range(3) [OF g(3)] g(2) by simp
  ultimately show "\<exists>g gs. findall parent_mass_pattern True w = g # gs \<and> p = parent_multiplier g
           \<and> (g = ''M'' \<longrightarrow> p = 1) \<and> (p = 0 \<longleftrightarrow> g = ''0M'')"
    using g(1,2) by blast
next
  assume "snd (get_multiplier_and_mass_from_adduct formula_mass e s) = Inr (Some m, cm)"
  from entry_success [OF this] obtain c p' ions' where
    r: "c \<noteq> 0" "snd (get_ions_from_adduct s) = Inr (Some p', Some ions')"
    "m = 1 / real_of_int \<bar>c\<bar> * real_of_int p'" by blast
  from get_ions_from_adduct_success(2) [OF r(2)] have p: "0 \<le> p'" .
  have c: "0 < real_of_int \<bar>c\<bar>" using r(1) by simp
  show "0 \<le> m" using r(3) p c by simp
  have "0 < m \<longleftrightarrow> 0 < p'" using r(3) c by (simp add: zero_less_divide_iff)
  with r(2)
  show "\<exists>p ions. snd (get_ions_from_adduct s) = Inr (Some p, ions) \<and> (0 < m \<longleftrightarrow> 0 < p)"
    by blast
qed

theorem parent_multiplier_is_a_digit_witness:
  "snd (get_ions_from_adduct ''[2M+H]2+'') = Inr (Some 2, Some [''+1H''])
   \<and> snd (ions_of_part ''2M+H'') = Inr (Some 2, Some [''+1H''])
   \<and> findall parent_mass_pattern True ''2M+H'' = [''2M'']
   \<and> snd (get_multiplier_and_mass_from_adduct (\<lambda>ion. if ion = ''H'' then Some 1 else None) 0 ''[2M+H]2+'') =
       Inr (Some 1, Some (1 / 2))"
proof -
  have a: "snd (get_ions_from_adduct ''[2M+H]2+'') = Inr (Some 2, Some [''+1H''])" by code_simp
  have b: "snd (ions_of_part ''2M+H'') = Inr (Some 2, Some [''+1H''])" by code_simp
  have f: "findall parent_mass_pattern True ''2M+H'' = [''2M'']" by code_simp
  have c: "snd (get_charge_of_adduct ''[2M+H]2+'') = Inr (Some 2)" by code_simp
  have s: "split_ion ''+1H'' = return (CHR ''+'', Digits ''1'', ''H'')" by code_simp
  have n: "int_of_str ''1'' = return 1" by code_simp
  have m: "snd (get_mass_of_ion (\<lambda>ion. if ion = ''H'' then Some 1 else None) [''+1H'']) = Inr (Some 1)"
    by (simp add: get_mass_of_ion_def s n py_defs)
  have r: "snd (get_multiplier_and_mass_from_adduct (\<lambda>ion. if ion = ''H'' then Some 1 else None) 0 ''[2M+H]2+'') =
       Inr (Some 1, Some (1 / 2))"
    using entry_resolved [OF c a m, of 0] by simp
  show ?thesis
    using a b f r
      parent_multiplier_is_a_digit [where s = "''[2M+H]2+''" and p = 2
        and ions = "Some [''+1H'']" and w = "''2M+H''"
        and formula_mass = "(\<lambda>ion. if ion = ''H'' then Some 1 else None)" and e = 0 and m = 1 and cm = "Some (1 / 2)"]
    by simp
qed



text \<open>
  C8. The claim: a string with several bracket groups, or nested ones, fails with
  (None, None). The pattern of line 41 is greedy: two groups on one line are one match,
  from the first opening bracket to the last closing one, so the check of line 42 passes
  and \<^verbatim>\<open>[M+H][M+Na]+\<close> resolves as an adduct with the ions H and Na. A nested
  group is one match too, and its content then has no parent-mass token. What the code
  does reject, with (None, None), is a string with an opening bracket on which the
  pattern matches no time or several times.
\<close>

theorem bracket_groups_taken_as_one:
  "findall brackets_pattern True ''[M+H][M+Na]+'' = [''M+H][M+Na'']
   \<and> get_ions_from_adduct ''[M+H][M+Na]+'' = ([], Inr (Some 1, Some [''+1H'', ''+1Na'']))
   \<and> (formula_mass ''H'' = Some h \<longrightarrow> formula_mass ''Na'' = Some n \<longrightarrow>
        get_multiplier_and_mass_from_adduct formula_mass e ''[M+H][M+Na]+'' =
          ([], Inr (Some 1, Some (h + n - e))))
   \<and> get_ions_from_adduct ''[[M+H]]+'' = ([Parent_mass_found 0 ''[M+H]''], Inl IndexError)
   \<and> (CHR ''['' \<in> set s \<longrightarrow> length (findall brackets_pattern True s) \<noteq> 1 \<longrightarrow>
        snd (get_multiplier_and_mass_from_adduct formula_mass e s) = Inr (None, None))"
proof (intro conjI impI)
  show "findall brackets_pattern True ''[M+H][M+Na]+'' = [''M+H][M+Na'']" by code_simp
  show i: "get_ions_from_adduct ''[M+H][M+Na]+'' = ([], Inr (Some 1, Some [''+1H'', ''+1Na'']))"
    by code_simp
  assume h: "formula_mass ''H'' = Some h" "formula_mass ''Na'' = Some n"
  have c: "get_charge_of_adduct ''[M+H][M+Na]+'' = ([], Inr (Some 1))" by code_simp
  have s: "split_ion ''+1H'' = return (CHR ''+'', Digits ''1'', ''H'')"
    "split_ion ''+1Na'' = return (CHR ''+'', Digits ''1'', ''Na'')" by code_simp+
  have n: "int_of_str ''1'' = return 1" by code_simp
  show "get_multiplier_and_mass_from_adduct formula_mass e ''[M+H][M+Na]+'' =
          ([], Inr (Some 1, Some (h + n - e)))"
    by (simp add: get_multiplier_and_mass_from_adduct_def c i s n h get_mass_of_ion_def py_defs)
next
  show "get_ions_from_adduct ''[[M+H]]+'' = ([Parent_mass_found 0 ''[M+H]''], Inl IndexError)"
    by code_simp
next
  assume "CHR ''['' \<in> set s" "length (findall brackets_pattern True s) \<noteq> 1"
  then show "snd (get_multiplier_and_mass_from_adduct formula_mass e s) = Inr (None, None)"
    by (rule entry_no_brackets)
qed

theorem bracket_groups_taken_as_one_witness:
  "get_multiplier_and_mass_from_adduct (\<lambda>ion. if ion = ''H'' then Some 1 else if ion = ''Na'' then Some 23 else None) 0 ''[M+H][M+Na]+'' =
     ([], Inr (Some 1, Some 24))
   \<and> CHR ''['' \<in> set '']+[''
   \<and> length (findall brackets_pattern True '']+['') \<noteq> 1
   \<and> snd (get_multiplier_and_mass_from_adduct (\<lambda>ion. if ion = ''H'' then Some 1 else if ion = ''Na'' then Some 23 else None) 0 '']+['') = Inr (None, None)"
proof -
  have a: "CHR ''['' \<in> set '']+[''" by simp
  have b: "length (findall brackets_pattern True '']+['') \<noteq> 1" by code_simp
  show ?thesis
    using a b
      bracket_groups_taken_as_one [where formula_mass = "(\<lambda>ion. if ion = ''H'' then Some 1 else if ion = ''Na'' then Some 23 else None)"
        and h = 1 and n = 23 and e = 0 and s = "'']+[''"]
    by simp
qed



text \<open>
  C10. Text before the opening bracket and after the charge is ignored: when neither
  holds a bracket, the content of the brackets has no closing bracket and no newline,
  and the charge text follows the closing bracket, the string resolves exactly as the
  string without the text around. So \<^verbatim>\<open>[M+H]+X\<close> resolves as \<^verbatim>\<open>[M+H]+\<close>
  does, to multiplier 1 and the mass of H less the electron mass.
\<close>

theorem text_outside_structure_ignored:
  "(CHR ''['' \<notin> set pre \<longrightarrow> CHR '']'' \<notin> set pre \<longrightarrow>
    CHR ''['' \<notin> set post \<longrightarrow> CHR '']'' \<notin> set post \<longrightarrow>
    CHR '']'' \<notin> set body \<longrightarrow> list_all is_dot body \<longrightarrow> charge_text g \<longrightarrow>
      get_multiplier_and_mass_from_adduct formula_mass e
          (pre @ CHR ''['' # body @ CHR '']'' # g @ post) =
      get_multiplier_and_mass_from_adduct formula_mass e (CHR ''['' # body @ CHR '']'' # g))
   \<and> get_multiplier_and_mass_from_adduct formula_mass e ''[M+H]+X'' =
       get_multiplier_and_mass_from_adduct formula_mass e ''[M+H]+''
   \<and> (formula_mass ''H'' = Some h \<longrightarrow>
        get_multiplier_and_mass_from_adduct formula_mass e ''[M+H]+X'' =
          ([], Inr (Some 1, Some (h - e))))"
proof (intro conjI impI)
  assume a: "CHR ''['' \<notin> set pre" "CHR '']'' \<notin> set pre" "CHR ''['' \<notin> set post"
    "CHR '']'' \<notin> set post" "CHR '']'' \<notin> set body" "list_all is_dot body" "charge_text g"
  let ?s = "pre @ CHR ''['' # body @ CHR '']'' # g @ post"
  let ?t = "CHR ''['' # body @ CHR '']'' # g"
  have g: "CHR ''['' \<notin> set g" "CHR '']'' \<notin> set g"
    using a(7) by (auto simp: charge_text_def is_sign_def is_digit_def split: list.splits)
  have c1: "findall charge_pattern True ?s = [g]"
    using a(2,5,4,7) by (rule findall_charge_around)
  have c2: "findall charge_pattern True ?t = [g]"
    using findall_charge_around [of "[]" body "[]" g] a(5,7) by simp
  have b1: "findall brackets_pattern True ?s = [body]"
    using findall_brackets_around [of pre body "g @ post"] a(1,3,4,6) g by simp
  have b2: "findall brackets_pattern True ?t = [body]"
    using findall_brackets_around [of "[]" body g] a(6) g by simp
  have "get_charge_of_adduct ?s = get_charge_of_adduct ?t"
    by (simp add: get_charge_single [OF c1] get_charge_single [OF c2])
  moreover have "get_ions_from_adduct ?s = get_ions_from_adduct ?t"
    by (simp add: get_ions_from_adduct_def b1 b2)
  ultimately show "get_multiplier_and_mass_from_adduct formula_mass e ?s =
      get_multiplier_and_mass_from_adduct formula_mass e ?t"
    unfolding get_multiplier_and_mass_from_adduct_def by (simp only:)
next
  have c: "get_charge_of_adduct ''[M+H]+X'' = get_charge_of_adduct ''[M+H]+''"
    by code_simp
  have i: "get_ions_from_adduct ''[M+H]+X'' = get_ions_from_adduct ''[M+H]+''"
    by code_simp
  show "get_multiplier_and_mass_from_adduct formula_mass e ''[M+H]+X'' =
       get_multiplier_and_mass_from_adduct formula_mass e ''[M+H]+''"
    unfolding get_multiplier_and_mass_from_adduct_def c i ..
next
  assume h: "formula_mass ''H'' = Some h"
  have c: "get_charge_of_adduct ''[M+H]+X'' = ([], Inr (Some 1))" by code_simp
  have i: "get_ions_from_adduct ''[M+H]+X'' = ([], Inr (Some 1, Some [''+1H'']))" by code_simp
  have s: "split_ion ''+1H'' = return (CHR ''+'', Digits ''1'', ''H'')" by code_simp
  have n: "int_of_str ''1'' = return 1" by code_simp
  show "get_multiplier_and_mass_from_adduct formula_mass e ''[M+H]+X'' =
          ([], Inr (Some 1, Some (h - e)))"
    by (simp add: get_multiplier_and_mass_from_adduct_def c i s n h get_mass_of_ion_def py_defs)
qed

theorem text_outside_structure_ignored_witness:
  "get_multiplier_and_mass_from_adduct (\<lambda>ion. if ion = ''H'' then Some 1 else None) 0 ''xx[M+H]+X'' =
     get_multiplier_and_mass_from_adduct (\<lambda>ion. if ion = ''H'' then Some 1 else None) 0 ''[M+H]+''
   \<and> get_multiplier_and_mass_from_adduct (\<lambda>ion. if ion = ''H'' then Some 1 else None) 0 ''[M+H]+X'' =
       ([], Inr (Some 1, Some 1))"
proof -
  have a: "CHR ''['' \<notin> set ''xx''" "CHR '']'' \<notin> set ''xx''"
    "CHR ''['' \<notin> set ''X''" "CHR '']'' \<notin> set ''X''" "CHR '']'' \<notin> set ''M+H''"
    by simp_all
  have b: "list_all is_dot ''M+H''" by (simp add: is_dot_def)
  have c: "charge_text ''+''" by (simp add: charge_text_def is_sign_def)
  note t = text_outside_structure_ignored [where pre = "''xx''" and post = "''X''"
        and body = "''M+H''" and g = "''+''"
        and formula_mass = "(\<lambda>ion. if ion = ''H'' then Some 1 else None)" and e = 0 and h = 1]
  from t a b c have 1: "get_multiplier_and_mass_from_adduct (\<lambda>ion. if ion = ''H'' then Some 1 else None) 0 ''xx[M+H]+X'' =
     get_multiplier_and_mass_from_adduct (\<lambda>ion. if ion = ''H'' then Some 1 else None) 0 ''[M+H]+''"
    by simp
  from t [THEN conjunct2, THEN conjunct2]
  have 2: "get_multiplier_and_mass_from_adduct (\<lambda>ion. if ion = ''H'' then Some 1 else None) 0 ''[M+H]+X'' =
       ([], Inr (Some 1, Some 1))"
    by simp
  from 1 2 show ?thesis by (rule conjI)
qed

end
